theory Spec2Isabelle
  imports Complex_Main "HOL-Library.Sublist"
begin

section \<open>Progress logging utilities (graphrag/logger/progress.py)\<close>

text \<open>
  A shallow embedding of the progress reporter: the \<open>Progress\<close> dataclass, the
  \<open>ProgressTicker\<close> class with its \<open>__call__\<close> and \<open>done\<close> methods, the factory
  \<open>progress_ticker\<close> and the generator function \<open>progress_iterable\<close>.

  Python integers are \<open>int\<close>, strings are \<open>string\<close>, \<open>X | None\<close> is \<open>X option\<close>.
  Everything the code does besides returning is explicit:
  \<^item> the mutable attribute \<open>_num_complete\<close> is threaded through as the updated ticker;
  \<^item> the two observable effects, a call of \<open>logger.info\<close> and a call of the callback,
    are appended in program order to the \<open>trace\<close> of the world;
  \<^item> the callback is caller code: it runs on the caller's own state \<open>env\<close>, which it
    may change, and it either returns (\<open>Inr ()\<close>) or raises (\<open>Inl e\<close>);
  \<^item> an exception leaving a method is the result \<open>Inl e\<close> of that method; the ticker
    and the world are returned with it, as the mutation made before the raise stays.
\<close>

subsection \<open>The Progress dataclass\<close>

record Progress =
  percent :: "real option"
  description :: "string option"
  total_items :: "int option"
  completed_items :: "int option"

text \<open>The dataclass gives every field the default \<open>None\<close>.\<close>

definition Progress_default :: Progress where
  "Progress_default =
     \<lparr>percent = None, description = None, total_items = None, completed_items = None\<rparr>"

subsection \<open>The world: logger, callback trace, caller state\<close>

datatype event = LogInfo string | Callback Progress

record 'w world =
  trace :: "event list"
  env :: 'w

text \<open>\<open>ProgressHandler = Callable[[Progress], None]\<close>, run on the caller's state.\<close>

type_synonym ('e, 'w) ProgressHandler = "Progress \<Rightarrow> 'w \<Rightarrow> ('e + unit) \<times> 'w"

subsection \<open>Python's str on integers and the log format\<close>

definition digit_char :: "nat \<Rightarrow> char" where
  "digit_char d = ''0123456789'' ! (d mod 10)"

function str_nat :: "nat \<Rightarrow> string" where
  "str_nat n = (if n < 10 then [digit_char n] else str_nat (n div 10) @ [digit_char (n mod 10)])"
  by pat_completeness auto
termination
  by (relation "measure id") auto

declare str_nat.simps [simp del]

definition str_int :: "int \<Rightarrow> string" where
  "str_int i = (if i < 0 then CHR ''-'' # str_nat (nat (- i)) else str_nat (nat i))"

text \<open>\<open>str(x)\<close> for \<open>x : int | None\<close>.\<close>

fun str_py :: "int option \<Rightarrow> string" where
  "str_py None = ''None''"
| "str_py (Some i) = str_int i"

text \<open>Truth value of \<open>x : str | None\<close> in a condition: false for None and the empty string.\<close>

fun truthy :: "string option \<Rightarrow> bool" where
  "truthy None = False"
| "truthy (Some s) = (s \<noteq> [])"

text \<open>The \<open>%s\<close> rendering of \<open>x : str | None\<close>.\<close>

fun str_of_description :: "string option \<Rightarrow> string" where
  "str_of_description None = ''None''"
| "str_of_description (Some s) = s"

text \<open>\<open>logger.info("%s%s/%s", a, b, c)\<close>: one informational record with the formatted message.\<close>

definition logger_info :: "string \<Rightarrow> string \<Rightarrow> string \<Rightarrow> 'w world \<Rightarrow> 'w world" where
  "logger_info a b c w = w\<lparr>trace := trace w @ [LogInfo (a @ b @ ''/'' @ c)]\<rparr>"

subsection \<open>ProgressTicker\<close>

text \<open>
  The attributes \<open>_callback\<close>, \<open>_description\<close>, \<open>_num_total\<close>, \<open>_num_complete\<close>; a name
  cannot start with an underscore here, so each carries the prefix \<open>ticker\<close>.
\<close>

record ('e, 'w) ProgressTicker =
  ticker_callback :: "('e, 'w) ProgressHandler option"
  ticker_description :: string
  ticker_num_total :: int
  ticker_num_complete :: int

definition ProgressTicker_init ::
  "('e, 'w) ProgressHandler option \<Rightarrow> int \<Rightarrow> string \<Rightarrow> ('e, 'w) ProgressTicker" where
  "ProgressTicker_init callback num_total description' =
     \<lparr>ticker_callback = callback, ticker_description = description',
      ticker_num_total = num_total, ticker_num_complete = 0\<rparr>"

text \<open>The snapshot built by \<open>__call__\<close>: keyword arguments over the dataclass defaults.\<close>

definition call_snapshot :: "('e, 'w) ProgressTicker \<Rightarrow> Progress" where
  "call_snapshot self =
     Progress_default\<lparr>total_items := Some (ticker_num_total self),
                      completed_items := Some (ticker_num_complete self),
                      description := Some (ticker_description self)\<rparr>"

text \<open>The snapshot built by \<open>done\<close>.\<close>

definition done_snapshot :: "('e, 'w) ProgressTicker \<Rightarrow> Progress" where
  "done_snapshot self =
     Progress_default\<lparr>total_items := Some (ticker_num_total self),
                      completed_items := Some (ticker_num_total self),
                      description := Some (ticker_description self)\<rparr>"

text \<open>Calling the handler: the call is recorded, then the handler runs on the caller's state.\<close>

definition invoke ::
  "('e, 'w) ProgressHandler \<Rightarrow> Progress \<Rightarrow> 'w world \<Rightarrow> ('e + unit) \<times> 'w world" where
  "invoke cb p w =
     (fst (cb p (env w)), w\<lparr>trace := trace w @ [Callback p], env := snd (cb p (env w))\<rparr>)"

text \<open>\<open>ProgressTicker.__call__(self, num_ticks)\<close>.\<close>

definition ProgressTicker_call ::
  "('e, 'w) ProgressTicker \<Rightarrow> int \<Rightarrow> 'w world
     \<Rightarrow> ('e + unit) \<times> ('e, 'w) ProgressTicker \<times> 'w world" where
  "ProgressTicker_call self num_ticks w =
     (let self' = self\<lparr>ticker_num_complete := ticker_num_complete self + num_ticks\<rparr> in
      case ticker_callback self' of
        None \<Rightarrow> (Inr (), self', w)
      | Some cb \<Rightarrow>
          (let p = call_snapshot self';
               w1 = (if truthy (description p)
                     then logger_info (str_of_description (description p))
                            (str_py (completed_items p)) (str_py (total_items p)) w
                     else w);
               (r, w2) = invoke cb p w1
           in (r, self', w2)))"

text \<open>\<open>ProgressTicker.done(self)\<close>.\<close>

definition ProgressTicker_done ::
  "('e, 'w) ProgressTicker \<Rightarrow> 'w world
     \<Rightarrow> ('e + unit) \<times> ('e, 'w) ProgressTicker \<times> 'w world" where
  "ProgressTicker_done self w =
     (case ticker_callback self of
        None \<Rightarrow> (Inr (), self, w)
      | Some cb \<Rightarrow> (let (r, w1) = invoke cb (done_snapshot self) w in (r, self, w1)))"

text \<open>The factory \<open>progress_ticker\<close>.\<close>

definition progress_ticker ::
  "('e, 'w) ProgressHandler option \<Rightarrow> int \<Rightarrow> string \<Rightarrow> ('e, 'w) ProgressTicker" where
  "progress_ticker callback num_total description' =
     ProgressTicker_init callback num_total description'"

subsection \<open>A caller driving a ticker\<close>

text \<open>
  The two operations a caller has on a ticker. \<open>run_ops\<close> is a caller performing a
  sequence of them on one ticker; it catches whatever an operation raises and goes on, so
  the outcomes are collected and the ticker and the world are threaded through.
  \<open>counts\<close> reads the stored completed count before the first operation and after each.
\<close>

datatype op = Increment int | Done

fun apply_op ::
  "('e, 'w) ProgressTicker \<Rightarrow> op \<Rightarrow> 'w world
     \<Rightarrow> ('e + unit) \<times> ('e, 'w) ProgressTicker \<times> 'w world" where
  "apply_op self (Increment n) w = ProgressTicker_call self n w"
| "apply_op self Done w = ProgressTicker_done self w"

fun run_ops ::
  "op list \<Rightarrow> ('e, 'w) ProgressTicker \<Rightarrow> 'w world
     \<Rightarrow> ('e + unit) list \<times> ('e, 'w) ProgressTicker \<times> 'w world" where
  "run_ops [] self w = ([], self, w)"
| "run_ops (x # xs) self w =
     (case apply_op self x w of
        (r, self', w') \<Rightarrow>
          (case run_ops xs self' w' of (rs, self'', w'') \<Rightarrow> (r # rs, self'', w'')))"

fun counts :: "op list \<Rightarrow> ('e, 'w) ProgressTicker \<Rightarrow> 'w world \<Rightarrow> int list" where
  "counts [] self w = [ticker_num_complete self]"
| "counts (x # xs) self w =
     ticker_num_complete self #
       (case apply_op self x w of (r, self', w') \<Rightarrow> counts xs self' w')"

fun nonneg_op :: "op \<Rightarrow> bool" where
  "nonneg_op (Increment n) = (0 \<le> n)"
| "nonneg_op Done = True"

text \<open>The snapshots handed to the callback, in order, among a run of events.\<close>

fun callbacks :: "event list \<Rightarrow> Progress list" where
  "callbacks [] = []"
| "callbacks (LogInfo s # evs) = callbacks evs"
| "callbacks (Callback p # evs) = p # callbacks evs"

text \<open>The log messages, in order, among a run of events.\<close>

fun log_lines :: "event list \<Rightarrow> string list" where
  "log_lines [] = []"
| "log_lines (LogInfo s # evs) = s # log_lines evs"
| "log_lines (Callback p # evs) = log_lines evs"

subsection \<open>Iterables\<close>

text \<open>
  An \<open>Iterable[T]\<close> with finitely many items is one of two kinds of object.
  A \<open>Sequence\<close> (a list, a tuple) can be iterated again and again: \<open>list(x)\<close> copies its
  items and every \<open>iter(x)\<close> starts a fresh pass. An \<open>Iterator\<close> (a generator, a file, the
  result of \<open>map\<close>) is single-pass: it holds the items not yet drawn, \<open>iter(x)\<close> is \<open>x\<close>
  itself, and whoever draws an item takes it away from every other holder of the object.
  The object passed to \<open>progress_iterable\<close> is threaded through: \<open>list_py\<close> returns the
  materialised list together with the object as the call leaves it, and \<open>iter_py\<close> gives
  the items a \<open>for\<close> loop over the object draws, in order.
\<close>

datatype 'a iterable = Sequence "'a list" | Iterator "'a list"

fun list_py :: "'a iterable \<Rightarrow> 'a list \<times> 'a iterable" where
  "list_py (Sequence xs) = (xs, Sequence xs)"
| "list_py (Iterator xs) = (xs, Iterator [])"

fun iter_py :: "'a iterable \<Rightarrow> 'a list" where
  "iter_py (Sequence xs) = xs"
| "iter_py (Iterator xs) = xs"

subsection \<open>progress_iterable\<close>

text \<open>
  \<open>progress_iterable\<close> is a generator function: calling it runs nothing and returns a
  generator object (\<open>Created\<close>, holding the arguments). Each \<open>next\<close> on the generator runs
  the body up to the next \<open>yield\<close>: the result is \<open>Inr (Some item)\<close> for a yielded item,
  \<open>Inr None\<close> when the body ends (StopIteration), and \<open>Inl e\<close> when the body raises.
  \<open>Suspended\<close> is the generator stopped at \<open>yield item\<close> inside the loop, with the local
  \<open>tick\<close> and the items the loop's iterator still holds. A generator whose body has ended
  or raised is \<open>Finished\<close>; the ticker it had is kept there for inspection only.
\<close>

datatype ('a, 'e, 'w) generator =
    Created "'a iterable" "('e, 'w) ProgressHandler option" "int option" string
  | Suspended "('e, 'w) ProgressTicker" "'a list"
  | Finished "('e, 'w) ProgressTicker"

definition progress_iterable ::
  "'a iterable \<Rightarrow> ('e, 'w) ProgressHandler option \<Rightarrow> int option \<Rightarrow> string
     \<Rightarrow> ('a, 'e, 'w) generator" where
  "progress_iterable iterable progress num_total description' =
     Created iterable progress num_total description'"

text \<open>\<open>for item in iterable: tick(1); yield item\<close>, from the loop head to the next yield.\<close>

fun for_loop ::
  "('e, 'w) ProgressTicker \<Rightarrow> 'a list \<Rightarrow> 'w world
     \<Rightarrow> ('e + 'a option) \<times> ('a, 'e, 'w) generator \<times> 'w world" where
  "for_loop tick [] w = (Inr None, Finished tick, w)"
| "for_loop tick (item # rest) w =
     (case ProgressTicker_call tick 1 w of
        (Inl e, tick', w') \<Rightarrow> (Inl e, Finished tick', w')
      | (Inr u, tick', w') \<Rightarrow> (Inr (Some item), Suspended tick' rest, w'))"

fun generator_next ::
  "('a, 'e, 'w) generator \<Rightarrow> 'w world
     \<Rightarrow> ('e + 'a option) \<times> ('a, 'e, 'w) generator \<times> 'w world" where
  "generator_next (Created iterable progress num_total description') w =
     (let (num_total', iterable') =
            (case num_total of
               None \<Rightarrow> (let (materialized, iterable') = list_py iterable
                         in (int (length materialized), iterable'))
             | Some n \<Rightarrow> (n, iterable));
          tick = ProgressTicker_init progress num_total' description'
      in for_loop tick (iter_py iterable') w)"
| "generator_next (Suspended tick rest) w = for_loop tick rest w"
| "generator_next (Finished tick) w = (Inr None, Finished tick, w)"

text \<open>The ticker of a generator whose body has started.\<close>

fun generator_ticker :: "('a, 'e, 'w) generator \<Rightarrow> ('e, 'w) ProgressTicker option" where
  "generator_ticker (Created iterable progress num_total description') = None"
| "generator_ticker (Suspended tick rest) = Some tick"
| "generator_ticker (Finished tick) = Some tick"

text \<open>The generator and the world after \<open>k\<close> calls of \<open>next\<close>, whatever they returned.\<close>

fun pulls ::
  "nat \<Rightarrow> ('a, 'e, 'w) generator \<Rightarrow> 'w world \<Rightarrow> ('a, 'e, 'w) generator \<times> 'w world" where
  "pulls 0 g w = (g, w)"
| "pulls (Suc k) g w = (case generator_next g w of (r, g', w') \<Rightarrow> pulls k g' w')"

text \<open>
  A consumer that iterates the generator to its end, as \<open>for x in gen\<close> or \<open>list(gen)\<close>
  does: it calls \<open>next\<close> until StopIteration or an exception. The result is the items it
  received, how the iteration ended, and the generator and the world afterwards.
  Every yield takes one item off what the generator still has to deliver, which is why
  the consumer comes to an end.
\<close>

fun pending :: "('a, 'e, 'w) generator \<Rightarrow> nat" where
  "pending (Created iterable progress num_total description') = Suc (length (iter_py iterable))"
| "pending (Suspended tick rest) = length rest"
| "pending (Finished tick) = 0"

lemma for_loop_pending:
  "for_loop tick xs w = (Inr (Some item), g', w') \<Longrightarrow> pending g' < length xs"
  by (cases xs) (auto split: prod.splits sum.splits)

lemma iter_py_list_py: "length (iter_py (snd (list_py it))) \<le> length (iter_py it)"
  by (cases it) auto

lemma generator_next_pending:
  "generator_next g w = (Inr (Some item), g', w') \<Longrightarrow> pending g' < pending g"
proof (cases g)
  case (Created it cb nt d)
  assume step: "generator_next g w = (Inr (Some item), g', w')"
  show ?thesis
  proof (cases nt)
    case None
    with step Created have "pending g' < length (iter_py (snd (list_py it)))"
      by (auto simp: split_def Let_def dest: for_loop_pending)
    with iter_py_list_py [of it] Created show ?thesis by simp
  next
    case (Some n)
    with step Created have "pending g' < length (iter_py it)"
      by (auto dest: for_loop_pending)
    with Created show ?thesis by simp
  qed
next
  case (Suspended t rest)
  then show "generator_next g w = (Inr (Some item), g', w') \<Longrightarrow> ?thesis"
    by (auto dest: for_loop_pending)
next
  case (Finished t)
  then show "generator_next g w = (Inr (Some item), g', w') \<Longrightarrow> ?thesis"
    by simp
qed

function consume ::
  "('a, 'e, 'w) generator \<Rightarrow> 'w world
     \<Rightarrow> 'a list \<times> ('e + unit) \<times> ('a, 'e, 'w) generator \<times> 'w world" where
  "consume g w =
     (case generator_next g w of
        (Inl e, g', w') \<Rightarrow> ([], Inl e, g', w')
      | (Inr None, g', w') \<Rightarrow> ([], Inr (), g', w')
      | (Inr (Some item), g', w') \<Rightarrow>
          (case consume g' w' of (items, r, g'', w'') \<Rightarrow> (item # items, r, g'', w'')))"
  by pat_completeness auto
termination
  by (relation "measure (\<lambda>(g, w). pending g)") (auto dest: generator_next_pending [OF sym])

declare consume.simps [simp del]

subsection \<open>Callers used in the examples\<close>

text \<open>A handler that keeps every snapshot it is given, in order, and never raises.\<close>

definition recording_handler :: "(string, Progress list) ProgressHandler" where
  "recording_handler p seen = (Inr (), seen @ [p])"

text \<open>A handler that counts its calls and raises on every one of them.\<close>

definition raising_handler :: "(string, nat) ProgressHandler" where
  "raising_handler p calls = (Inl ''handler failed'', Suc calls)"

text \<open>A world in which nothing has been logged and no callback has run.\<close>

definition fresh_world :: "'w \<Rightarrow> 'w world" where
  "fresh_world v = \<lparr>trace = [], env = v\<rparr>"

section \<open>Properties of the ticker\<close>

subsection \<open>What one call does\<close>

text \<open>
  With a callback, \<open>__call__\<close> adds to the count, logs when the description is not
  empty, then hands the snapshot to the callback; its outcome is the callback's.
\<close>

lemma call_with_callback:
  "ticker_callback self = Some cb \<Longrightarrow>
   ProgressTicker_call self n w =
     (fst (cb \<lparr>percent = None, description = Some (ticker_description self),
               total_items = Some (ticker_num_total self),
               completed_items = Some (ticker_num_complete self + n)\<rparr> (env w)),
      self\<lparr>ticker_num_complete := ticker_num_complete self + n\<rparr>,
      \<lparr>trace = trace w @
         (if ticker_description self = [] then []
          else [LogInfo (ticker_description self @ str_int (ticker_num_complete self + n)
                           @ ''/'' @ str_int (ticker_num_total self))])
         @ [Callback \<lparr>percent = None, description = Some (ticker_description self),
               total_items = Some (ticker_num_total self),
               completed_items = Some (ticker_num_complete self + n)\<rparr>],
       env = snd (cb \<lparr>percent = None, description = Some (ticker_description self),
               total_items = Some (ticker_num_total self),
               completed_items = Some (ticker_num_complete self + n)\<rparr> (env w))\<rparr>)"
  by (simp add: ProgressTicker_call_def call_snapshot_def Progress_default_def invoke_def
      logger_info_def Let_def)

lemma done_with_callback:
  "ticker_callback self = Some cb \<Longrightarrow>
   ProgressTicker_done self w =
     (fst (cb \<lparr>percent = None, description = Some (ticker_description self),
               total_items = Some (ticker_num_total self),
               completed_items = Some (ticker_num_total self)\<rparr> (env w)),
      self,
      \<lparr>trace = trace w @
         [Callback \<lparr>percent = None, description = Some (ticker_description self),
               total_items = Some (ticker_num_total self),
               completed_items = Some (ticker_num_total self)\<rparr>],
       env = snd (cb \<lparr>percent = None, description = Some (ticker_description self),
               total_items = Some (ticker_num_total self),
               completed_items = Some (ticker_num_total self)\<rparr> (env w))\<rparr>)"
  by (simp add: ProgressTicker_done_def done_snapshot_def Progress_default_def invoke_def)

lemma call_without_callback:
  "ticker_callback self = None \<Longrightarrow>
   ProgressTicker_call self n w
     = (Inr (), self\<lparr>ticker_num_complete := ticker_num_complete self + n\<rparr>, w)"
  by (simp add: ProgressTicker_call_def)

lemma done_without_callback:
  "ticker_callback self = None \<Longrightarrow> ProgressTicker_done self w = (Inr (), self, w)"
  by (simp add: ProgressTicker_done_def)

lemma callbacks_append: "callbacks (xs @ ys) = callbacks xs @ callbacks ys"
  by (induction xs rule: callbacks.induct) auto

lemma run_ops_append:
  "run_ops (xs @ ys) self w =
     (case run_ops xs self w of
        (rs, self1, w1) \<Rightarrow>
          (case run_ops ys self1 w1 of (rs', self2, w2) \<Rightarrow> (rs @ rs', self2, w2)))"
  by (induction xs arbitrary: self w) (auto split: prod.splits)

lemma replicate_snoc: "replicate (Suc N) x = replicate N x @ [x]"
  by (simp add: replicate_append_same)

subsection \<open>Increments\<close>

lemma increments_from:
  "ticker_callback self = Some cb \<Longrightarrow>
   \<exists>rs w' evs.
     run_ops (replicate N (Increment 1)) self w =
       (rs, self\<lparr>ticker_num_complete := ticker_num_complete self + int N\<rparr>, w')
     \<and> trace w' = trace w @ evs
     \<and> callbacks evs =
         map (\<lambda>k. \<lparr>percent = None, description = Some (ticker_description self),
                    total_items = Some (ticker_num_total self),
                    completed_items = Some (ticker_num_complete self + int k)\<rparr>)
           [1..<Suc N]"
proof (induction N)
  case 0
  then show ?case by simp
next
  case (Suc N)
  from Suc obtain rs w' evs where
    run: "run_ops (replicate N (Increment 1)) self w =
       (rs, self\<lparr>ticker_num_complete := ticker_num_complete self + int N\<rparr>, w')"
    and tr: "trace w' = trace w @ evs"
    and cbs: "callbacks evs =
         map (\<lambda>k. \<lparr>percent = None, description = Some (ticker_description self),
                    total_items = Some (ticker_num_total self),
                    completed_items = Some (ticker_num_complete self + int k)\<rparr>)
           [1..<Suc N]"
    by blast
  let ?self1 = "self\<lparr>ticker_num_complete := ticker_num_complete self + int N\<rparr>"
  have cb1: "ticker_callback ?self1 = Some cb" using Suc.prems by simp
  show ?case
    unfolding replicate_snoc run_ops_append run
    using cbs tr
    by (simp add: call_with_callback [OF cb1] callbacks_append add.assoc)
qed

text \<open>
  Claim C2. A reporter constructed with a callback and total \<open>T\<close>; a caller makes \<open>N\<close>
  calls of Increment with tick size 1 (going on even when the callback raises). The
  snapshots handed to the callback are, in order, those with completed_items
  \<open>1, 2, ..., N\<close>, each with total_items \<open>T\<close>; so the snapshot of the \<open>N\<close>-th call has
  completed_items \<open>N\<close>, whatever \<open>T\<close> is (nothing is clamped), and the stored count is
  \<open>N\<close> afterwards.
\<close>

theorem increments_report_running_count:
  "\<exists>rs w' evs.
     run_ops (replicate N (Increment 1)) (ProgressTicker_init (Some cb) T d) w =
       (rs, (ProgressTicker_init (Some cb) T d)\<lparr>ticker_num_complete := int N\<rparr>, w')
     \<and> trace w' = trace w @ evs
     \<and> callbacks evs =
         map (\<lambda>k. \<lparr>percent = None, description = Some d, total_items = Some T,
                    completed_items = Some (int k)\<rparr>) [1..<Suc N]"
  using increments_from [of "ProgressTicker_init (Some cb) T d" cb N w]
  by (simp add: ProgressTicker_init_def)

theorem increments_report_running_count_witness:
  "callbacks (trace (snd (snd (run_ops (replicate 3 (Increment 1))
       (ProgressTicker_init (Some recording_handler) 2 ''Loading '') (fresh_world [])))))
     = [\<lparr>percent = None, description = Some ''Loading '', total_items = Some 2,
          completed_items = Some 1\<rparr>,
        \<lparr>percent = None, description = Some ''Loading '', total_items = Some 2,
          completed_items = Some 2\<rparr>,
        \<lparr>percent = None, description = Some ''Loading '', total_items = Some 2,
          completed_items = Some 3\<rparr>]"
  using increments_report_running_count [of 3 recording_handler 2 "''Loading ''" "fresh_world []"]
  by (auto simp: fresh_world_def upt_conv_Cons)

subsection \<open>Done\<close>

lemma dones_from:
  "ticker_callback self = Some cb \<Longrightarrow>
   fst (snd (run_ops (replicate k Done) self w)) = self
   \<and> trace (snd (snd (run_ops (replicate k Done) self w))) =
       trace w @ replicate k
         (Callback \<lparr>percent = None, description = Some (ticker_description self),
                     total_items = Some (ticker_num_total self),
                     completed_items = Some (ticker_num_total self)\<rparr>)"
proof (induction k arbitrary: w)
  case 0
  then show ?case by simp
next
  case (Suc k)
  then show ?case
    by (simp add: done_with_callback split_def)
qed

text \<open>
  Claim C3. A reporter with a callback, in any state. Done hands the callback one
  snapshot whose completed_items is the stored total (whatever the running count is)
  and whose description is the stored description; its outcome is the callback's, and
  the reporter, its completed count included, is left as it was. A caller making \<open>k\<close>
  calls of Done gets \<open>k\<close> callback calls, each with that same snapshot, and nothing else
  is logged.
\<close>

theorem done_reports_total:
  "ticker_callback self = Some cb \<Longrightarrow>
   ProgressTicker_done self w =
     (fst (cb \<lparr>percent = None, description = Some (ticker_description self),
               total_items = Some (ticker_num_total self),
               completed_items = Some (ticker_num_total self)\<rparr> (env w)),
      self,
      \<lparr>trace = trace w @
         [Callback \<lparr>percent = None, description = Some (ticker_description self),
               total_items = Some (ticker_num_total self),
               completed_items = Some (ticker_num_total self)\<rparr>],
       env = snd (cb \<lparr>percent = None, description = Some (ticker_description self),
               total_items = Some (ticker_num_total self),
               completed_items = Some (ticker_num_total self)\<rparr> (env w))\<rparr>)
   \<and> fst (snd (run_ops (replicate k Done) self w)) = self
   \<and> trace (snd (snd (run_ops (replicate k Done) self w))) =
       trace w @ replicate k
         (Callback \<lparr>percent = None, description = Some (ticker_description self),
                     total_items = Some (ticker_num_total self),
                     completed_items = Some (ticker_num_total self)\<rparr>)"
  using done_with_callback [of self cb w] dones_from [of self cb k w]
  by simp

theorem done_reports_total_witness:
  "ticker_callback \<lparr>ticker_callback = Some recording_handler, ticker_description = ''Loading '',
       ticker_num_total = 3, ticker_num_complete = 7\<rparr> = Some recording_handler
   \<and> ProgressTicker_done
       \<lparr>ticker_callback = Some recording_handler, ticker_description = ''Loading '',
         ticker_num_total = 3, ticker_num_complete = 7\<rparr> (fresh_world [])
     = (Inr (),
        \<lparr>ticker_callback = Some recording_handler, ticker_description = ''Loading '',
          ticker_num_total = 3, ticker_num_complete = 7\<rparr>,
        \<lparr>trace = [Callback \<lparr>percent = None, description = Some ''Loading '',
                     total_items = Some 3, completed_items = Some 3\<rparr>],
          env = [\<lparr>percent = None, description = Some ''Loading '',
                     total_items = Some 3, completed_items = Some 3\<rparr>]\<rparr>)
   \<and> trace (snd (snd (run_ops (replicate 2 Done)
       \<lparr>ticker_callback = Some recording_handler, ticker_description = ''Loading '',
         ticker_num_total = 3, ticker_num_complete = 7\<rparr> (fresh_world [])))) =
       [Callback \<lparr>percent = None, description = Some ''Loading '',
                     total_items = Some 3, completed_items = Some 3\<rparr>,
        Callback \<lparr>percent = None, description = Some ''Loading '',
                     total_items = Some 3, completed_items = Some 3\<rparr>]"
proof -
  let ?t = "\<lparr>ticker_callback = Some recording_handler, ticker_description = ''Loading '',
         ticker_num_total = 3, ticker_num_complete = 7\<rparr>"
  have cb: "ticker_callback ?t = Some recording_handler" by simp
  have two: "replicate 2 x = [x, x]" for x :: event
    by (simp add: numeral_2_eq_2)
  from done_reports_total [OF cb, of "fresh_world []" 2] cb show ?thesis
    by (simp add: fresh_world_def recording_handler_def two)
qed

subsection \<open>Exceptions of the callback\<close>

text \<open>
  Claim C4. A reporter with a callback. When the callback, given the snapshot of an
  Increment, raises \<open>e\<close> and leaves the caller's state as \<open>v\<close>, then Increment raises
  that same \<open>e\<close>: the callback has been called once, the caller's state is \<open>v\<close> (nothing
  was retried or undone), and the count stays increased. The same holds for Done with
  its snapshot. Neither method catches anything.
\<close>

theorem callback_exception_propagates:
  "ticker_callback self = Some cb \<Longrightarrow>
   (cb \<lparr>percent = None, description = Some (ticker_description self),
        total_items = Some (ticker_num_total self),
        completed_items = Some (ticker_num_complete self + n)\<rparr> (env w) = (Inl e, v)
    \<longrightarrow> ProgressTicker_call self n w =
         (Inl e, self\<lparr>ticker_num_complete := ticker_num_complete self + n\<rparr>,
          \<lparr>trace = trace w @
             (if ticker_description self = [] then []
              else [LogInfo (ticker_description self @ str_int (ticker_num_complete self + n)
                               @ ''/'' @ str_int (ticker_num_total self))])
             @ [Callback \<lparr>percent = None, description = Some (ticker_description self),
                   total_items = Some (ticker_num_total self),
                   completed_items = Some (ticker_num_complete self + n)\<rparr>],
           env = v\<rparr>))
   \<and> (cb \<lparr>percent = None, description = Some (ticker_description self),
        total_items = Some (ticker_num_total self),
        completed_items = Some (ticker_num_total self)\<rparr> (env w) = (Inl e, v)
    \<longrightarrow> ProgressTicker_done self w =
         (Inl e, self,
          \<lparr>trace = trace w @
             [Callback \<lparr>percent = None, description = Some (ticker_description self),
                   total_items = Some (ticker_num_total self),
                   completed_items = Some (ticker_num_total self)\<rparr>],
           env = v\<rparr>))"
  by (simp add: call_with_callback done_with_callback)

theorem callback_exception_propagates_witness:
  "ProgressTicker_call (ProgressTicker_init (Some raising_handler) 3 []) 1 (fresh_world 0)
     = (Inl ''handler failed'',
        \<lparr>ticker_callback = Some raising_handler, ticker_description = [],
          ticker_num_total = 3, ticker_num_complete = 1\<rparr>,
        \<lparr>trace = [Callback \<lparr>percent = None, description = Some [],
                     total_items = Some 3, completed_items = Some 1\<rparr>],
          env = 1\<rparr>)
   \<and> ProgressTicker_done (ProgressTicker_init (Some raising_handler) 3 []) (fresh_world 0)
     = (Inl ''handler failed'', ProgressTicker_init (Some raising_handler) 3 [],
        \<lparr>trace = [Callback \<lparr>percent = None, description = Some [],
                     total_items = Some 3, completed_items = Some 3\<rparr>],
          env = 1\<rparr>)"
proof -
  let ?t = "ProgressTicker_init (Some raising_handler) 3 []"
  have cb: "ticker_callback ?t = Some raising_handler"
    by (simp add: ProgressTicker_init_def)
  from callback_exception_propagates [OF cb, of 1 "fresh_world 0" "''handler failed''" 1]
  show ?thesis
    by (simp add: ProgressTicker_init_def fresh_world_def raising_handler_def)
qed

subsection \<open>The log line\<close>

text \<open>
  Claim C6, as stated, asks for a log line on every Increment of a reporter whose
  description is not empty. The logging sits inside the test for a callback: a
  reporter with the description \<open>Loading \<close> and no callback logs nothing.
\<close>

theorem increment_without_callback_logs_nothing:
  "ticker_description (ProgressTicker_init None 3 ''Loading '' :: (string, unit) ProgressTicker) \<noteq> []
   \<and> trace (snd (snd (ProgressTicker_call
        (ProgressTicker_init None 3 ''Loading '' :: (string, unit) ProgressTicker) 1
        (fresh_world ())))) = []"
  by (simp add: ProgressTicker_init_def ProgressTicker_call_def fresh_world_def)

text \<open>
  Claim C6, amended. On a reporter that has a callback and a description that is not
  empty, every Increment emits exactly one informational log line, the description
  followed at once by the new completed count, a slash and the total, and emits it
  before it calls the callback with the snapshot.
\<close>

theorem increment_logs_before_callback:
  "ticker_callback self = Some cb \<Longrightarrow> ticker_description self \<noteq> [] \<Longrightarrow>
   ProgressTicker_call self n w =
     (fst (cb \<lparr>percent = None, description = Some (ticker_description self),
               total_items = Some (ticker_num_total self),
               completed_items = Some (ticker_num_complete self + n)\<rparr> (env w)),
      self\<lparr>ticker_num_complete := ticker_num_complete self + n\<rparr>,
      \<lparr>trace = trace w @
         [LogInfo (ticker_description self @ str_int (ticker_num_complete self + n)
                     @ ''/'' @ str_int (ticker_num_total self)),
          Callback \<lparr>percent = None, description = Some (ticker_description self),
               total_items = Some (ticker_num_total self),
               completed_items = Some (ticker_num_complete self + n)\<rparr>],
       env = snd (cb \<lparr>percent = None, description = Some (ticker_description self),
               total_items = Some (ticker_num_total self),
               completed_items = Some (ticker_num_complete self + n)\<rparr> (env w))\<rparr>)"
  by (simp add: call_with_callback)

theorem increment_logs_before_callback_witness:
  "ProgressTicker_call (ProgressTicker_init (Some recording_handler) 3 ''Loading '') 1
       (fresh_world [])
     = (Inr (),
        \<lparr>ticker_callback = Some recording_handler, ticker_description = ''Loading '',
          ticker_num_total = 3, ticker_num_complete = 1\<rparr>,
        \<lparr>trace = [LogInfo ''Loading 1/3'',
                   Callback \<lparr>percent = None, description = Some ''Loading '',
                     total_items = Some 3, completed_items = Some 1\<rparr>],
          env = [\<lparr>percent = None, description = Some ''Loading '',
                     total_items = Some 3, completed_items = Some 1\<rparr>]\<rparr>)"
proof -
  let ?t = "ProgressTicker_init (Some recording_handler) 3 ''Loading ''"
  have cb: "ticker_callback ?t = Some recording_handler"
    by (simp add: ProgressTicker_init_def)
  have d: "ticker_description ?t \<noteq> []"
    by (simp add: ProgressTicker_init_def)
  have s1: "str_int 1 = ''1''" and s3: "str_int 3 = ''3''"
    by (simp_all add: str_int_def str_nat.simps digit_char_def)
  from increment_logs_before_callback [OF cb d, of 1 "fresh_world []"] show ?thesis
    by (simp add: ProgressTicker_init_def fresh_world_def recording_handler_def s1 s3)
qed

subsection \<open>No callback\<close>

text \<open>
  Claim C7. A reporter constructed with no callback: every Increment and every Done
  invokes no callback and raises nothing; Increment still adds to the completed count
  and does nothing else, Done does nothing at all.
\<close>

theorem no_callback_is_noop:
  "ticker_callback self = None \<Longrightarrow>
     ProgressTicker_call self n w
       = (Inr (), self\<lparr>ticker_num_complete := ticker_num_complete self + n\<rparr>, w)
     \<and> ProgressTicker_done self w = (Inr (), self, w)"
  by (simp add: ProgressTicker_call_def ProgressTicker_done_def)

theorem no_callback_is_noop_witness:
  "ticker_callback (ProgressTicker_init None 3 ''Loading '' :: (string, unit) ProgressTicker) = None
   \<and> ProgressTicker_call (ProgressTicker_init None 3 ''Loading '') 1 (fresh_world ())
       = (Inr (), \<lparr>ticker_callback = None :: (string, unit) ProgressHandler option,
                   ticker_description = ''Loading '',
                   ticker_num_total = 3, ticker_num_complete = 1\<rparr>, fresh_world ())
   \<and> ProgressTicker_done (ProgressTicker_init None 3 ''Loading '' :: (string, unit) ProgressTicker)
        (fresh_world ())
       = (Inr (), ProgressTicker_init None 3 ''Loading '', fresh_world ())"
  using no_callback_is_noop
    [of "ProgressTicker_init None 3 ''Loading '' :: (string, unit) ProgressTicker" 1
        "fresh_world ()"]
  by (simp add: ProgressTicker_init_def)

subsection \<open>The completed count\<close>

lemma apply_op_count:
  "ticker_num_complete (fst (snd (apply_op self x w))) =
     ticker_num_complete self + (case x of Increment n \<Rightarrow> n | Done \<Rightarrow> 0)"
  by (cases x; cases "ticker_callback self")
     (simp_all add: call_with_callback done_with_callback call_without_callback
        done_without_callback)

lemma counts_head: "\<exists>rest. counts ops self w = ticker_num_complete self # rest"
  by (cases ops) simp_all

lemma counts_sorted: "list_all nonneg_op ops \<Longrightarrow> sorted (counts ops self w)"
proof (induction ops arbitrary: self w)
  case Nil
  then show ?case by simp
next
  case (Cons x xs)
  obtain r self' w' where step: "apply_op self x w = (r, self', w')"
    by (cases "apply_op self x w") auto
  from Cons.prems have nn: "nonneg_op x" and rest: "list_all nonneg_op xs"
    by simp_all
  from apply_op_count [of self x w] step nn
  have le: "ticker_num_complete self \<le> ticker_num_complete self'"
    by (cases x) simp_all
  from counts_head [of xs self' w'] obtain tl' where
    hd: "counts xs self' w' = ticker_num_complete self' # tl'" by blast
  from Cons.IH [OF rest, of self' w'] hd le step show ?case
    by auto
qed

text \<open>
  Claim C8, as stated, lets the sequence hold any Increment(n). The tick size is an
  unchecked integer: Increment(-1) on a fresh reporter takes the count from 0 to -1.
\<close>

theorem negative_increment_lowers_count:
  "counts [Increment (- 1)] (ProgressTicker_init None 3 [] :: (string, unit) ProgressTicker)
     (fresh_world ()) = [0, - 1]
   \<and> \<not> sorted (counts [Increment (- 1)]
        (ProgressTicker_init None 3 [] :: (string, unit) ProgressTicker) (fresh_world ()))"
  by (simp add: ProgressTicker_init_def ProgressTicker_call_def)

text \<open>
  Claim C8, amended. The completed count is 0 at construction, and over any sequence
  of Done calls and Increment(n) calls with \<open>n \<ge> 0\<close>, on a reporter in any state, the
  stored completed count never decreases from one operation to the next.
\<close>

theorem completed_count_monotone:
  "ticker_num_complete (ProgressTicker_init cb T d) = 0
   \<and> (list_all nonneg_op ops \<longrightarrow> sorted (counts ops self w))"
  by (simp add: ProgressTicker_init_def counts_sorted)

theorem completed_count_monotone_witness:
  "list_all nonneg_op [Increment 2, Done, Increment 0, Increment 1]
   \<and> counts [Increment 2, Done, Increment 0, Increment 1]
       (ProgressTicker_init (Some recording_handler) 3 []) (fresh_world []) = [0, 2, 2, 2, 3]
   \<and> sorted (counts [Increment 2, Done, Increment 0, Increment 1]
       (ProgressTicker_init (Some recording_handler) 3 []) (fresh_world []))"
proof -
  have nn: "list_all nonneg_op [Increment 2, Done, Increment 0, Increment 1]"
    by simp
  have c: "counts [Increment 2, Done, Increment 0, Increment 1]
       (ProgressTicker_init (Some recording_handler) 3 []) (fresh_world []) = [0, 2, 2, 2, 3]"
    by (simp add: ProgressTicker_init_def ProgressTicker_call_def ProgressTicker_done_def
        invoke_def Let_def split_def)
  have s: "sorted (counts [Increment 2, Done, Increment 0, Increment 1]
       (ProgressTicker_init (Some recording_handler) 3 []) (fresh_world []))"
    by (rule completed_count_monotone
          [of "Some recording_handler" 3 "[]", THEN conjunct2, THEN mp, OF nn])
  show ?thesis
    by (rule conjI [OF nn conjI [OF c s]])
qed

subsection \<open>The percent field\<close>

lemma apply_op_events:
  "\<exists>evs. trace (snd (snd (apply_op self x w))) = trace w @ evs
     \<and> list_all (\<lambda>p. percent p = None \<and> description p \<noteq> None \<and> total_items p \<noteq> None
                       \<and> completed_items p \<noteq> None) (callbacks evs)"
  by (cases x; cases "ticker_callback self")
     (simp_all add: call_with_callback done_with_callback call_without_callback
        done_without_callback callbacks_append)

lemma run_ops_events:
  "\<exists>evs. trace (snd (snd (run_ops ops self w))) = trace w @ evs
     \<and> list_all (\<lambda>p. percent p = None \<and> description p \<noteq> None \<and> total_items p \<noteq> None
                       \<and> completed_items p \<noteq> None) (callbacks evs)"
proof (induction ops arbitrary: self w)
  case Nil
  show ?case by simp
next
  case (Cons x xs)
  obtain r self' w' where step: "apply_op self x w = (r, self', w')"
    by (cases "apply_op self x w") auto
  from apply_op_events [of self x w] step obtain evs1 where
    e1: "trace w' = trace w @ evs1"
    and q1: "list_all (\<lambda>p. percent p = None \<and> description p \<noteq> None \<and> total_items p \<noteq> None
                       \<and> completed_items p \<noteq> None) (callbacks evs1)"
    by auto
  from Cons.IH [of self' w'] obtain evs2 where
    e2: "trace (snd (snd (run_ops xs self' w'))) = trace w' @ evs2"
    and q2: "list_all (\<lambda>p. percent p = None \<and> description p \<noteq> None \<and> total_items p \<noteq> None
                       \<and> completed_items p \<noteq> None) (callbacks evs2)"
    by blast
  have "trace (snd (snd (run_ops (x # xs) self w))) = trace w @ (evs1 @ evs2)"
    using step e1 e2 by (simp add: split_def)
  moreover have "list_all (\<lambda>p. percent p = None \<and> description p \<noteq> None \<and> total_items p \<noteq> None
                       \<and> completed_items p \<noteq> None) (callbacks (evs1 @ evs2))"
    using q1 q2 by (simp add: callbacks_append)
  ultimately show ?case by blast
qed

text \<open>
  Claim C9. The snapshot built by Increment and the one built by Done have percent
  None. Over any sequence of Increment and Done calls on any reporter, every snapshot
  handed to the callback has percent None, while its description, total_items and
  completed_items are set.
\<close>

theorem snapshots_have_no_percent:
  "percent (call_snapshot self) = None \<and> percent (done_snapshot self) = None
   \<and> (\<exists>evs. trace (snd (snd (run_ops ops self w))) = trace w @ evs
         \<and> list_all (\<lambda>p. percent p = None \<and> description p \<noteq> None \<and> total_items p \<noteq> None
                           \<and> completed_items p \<noteq> None) (callbacks evs))"
  using run_ops_events [of ops self w]
  by (simp add: call_snapshot_def done_snapshot_def Progress_default_def)

section \<open>Properties of progress_iterable\<close>

subsection \<open>The body of the generator, step by step\<close>

text \<open>
  The first \<open>next\<close> computes the total and builds the ticker; from there on the generator
  behaves as one suspended in the loop with all the items of the pass still to come.
\<close>

lemma generator_next_Created:
  "generator_next (Created it cb nt d) w =
     generator_next
       (Suspended
          (ProgressTicker_init cb
             (case nt of None \<Rightarrow> int (length (fst (list_py it))) | Some n \<Rightarrow> n) d)
          (iter_py (case nt of None \<Rightarrow> snd (list_py it) | Some n \<Rightarrow> it))) w"
  by (simp add: split_def Let_def split: option.splits)

lemma consume_Created:
  "consume (Created it cb nt d) w =
     consume
       (Suspended
          (ProgressTicker_init cb
             (case nt of None \<Rightarrow> int (length (fst (list_py it))) | Some n \<Rightarrow> n) d)
          (iter_py (case nt of None \<Rightarrow> snd (list_py it) | Some n \<Rightarrow> it))) w"
  by (subst consume.simps, subst (2) consume.simps, simp only: generator_next_Created)

lemma pulls_Created:
  "pulls (Suc k) (Created it cb nt d) w =
     pulls (Suc k)
       (Suspended
          (ProgressTicker_init cb
             (case nt of None \<Rightarrow> int (length (fst (list_py it))) | Some n \<Rightarrow> n) d)
          (iter_py (case nt of None \<Rightarrow> snd (list_py it) | Some n \<Rightarrow> it))) w"
  by (simp only: pulls.simps generator_next_Created)

lemma consume_Nil: "consume (Suspended tick []) w = ([], Inr (), Finished tick, w)"
  by (subst consume.simps) simp

lemma consume_Cons:
  "consume (Suspended tick (item # rest)) w =
     (case ProgressTicker_call tick 1 w of
        (Inl e, tick', w') \<Rightarrow> ([], Inl e, Finished tick', w')
      | (Inr u, tick', w') \<Rightarrow>
          (case consume (Suspended tick' rest) w' of
             (items, r, g'', w'') \<Rightarrow> (item # items, r, g'', w'')))"
  by (subst consume.simps) (simp split: prod.splits sum.splits)

lemma call_fields:
  "ticker_num_total (fst (snd (ProgressTicker_call tick n w))) = ticker_num_total tick"
  "ticker_callback (fst (snd (ProgressTicker_call tick n w))) = ticker_callback tick"
  "ticker_description (fst (snd (ProgressTicker_call tick n w))) = ticker_description tick"
  "ticker_num_complete (fst (snd (ProgressTicker_call tick n w))) = ticker_num_complete tick + n"
  by (cases "ticker_callback tick"; simp add: call_with_callback call_without_callback)+

lemma call_events:
  "\<exists>evs. trace (snd (snd (ProgressTicker_call tick n w))) = trace w @ evs
     \<and> list_all (\<lambda>p. total_items p = Some (ticker_num_total tick)) (callbacks evs)"
  by (cases "ticker_callback tick")
     (simp_all add: call_with_callback call_without_callback callbacks_append)

lemma consume_loop:
  "consume (Suspended tick rest) w = (ys, r, g', w') \<Longrightarrow>
     prefix ys rest \<and> (r = Inr () \<longrightarrow> ys = rest)
     \<and> (\<exists>tick'. g' = Finished tick' \<and> ticker_num_total tick' = ticker_num_total tick)
     \<and> (\<exists>evs. trace w' = trace w @ evs
           \<and> list_all (\<lambda>p. total_items p = Some (ticker_num_total tick)) (callbacks evs))"
proof (induction rest arbitrary: tick w ys r g' w')
  case Nil
  then show ?case by (auto simp: consume_Nil)
next
  case (Cons item rest)
  obtain r1 tick1 w1 where call: "ProgressTicker_call tick 1 w = (r1, tick1, w1)"
    by (cases "ProgressTicker_call tick 1 w") auto
  from call_fields(1) [of tick 1 w] call
  have tot: "ticker_num_total tick1 = ticker_num_total tick" by simp
  from call_events [of tick 1 w] call obtain evs1 where
    e1: "trace w1 = trace w @ evs1"
    and q1: "list_all (\<lambda>p. total_items p = Some (ticker_num_total tick)) (callbacks evs1)"
    by auto
  show ?case
  proof (cases r1)
    case (Inl e)
    with Cons.prems call tot e1 q1 show ?thesis
      by (auto simp: consume_Cons)
  next
    case (Inr u)
    obtain ys2 r2 g2 w2 where rec: "consume (Suspended tick1 rest) w1 = (ys2, r2, g2, w2)"
      by (cases "consume (Suspended tick1 rest) w1") auto
    from Cons.IH [OF rec] tot obtain tick' evs2 where
      p2: "prefix ys2 rest" and c2: "r2 = Inr () \<longrightarrow> ys2 = rest"
      and g2: "g2 = Finished tick'" and t2: "ticker_num_total tick' = ticker_num_total tick"
      and e2: "trace w2 = trace w1 @ evs2"
      and q2: "list_all (\<lambda>p. total_items p = Some (ticker_num_total tick)) (callbacks evs2)"
      by auto
    from Cons.prems call Inr rec
    have res: "ys = item # ys2" "r = r2" "g' = g2" "w' = w2"
      by (simp_all add: consume_Cons)
    have "trace w' = trace w @ (evs1 @ evs2)" using res e1 e2 by simp
    moreover have "list_all (\<lambda>p. total_items p = Some (ticker_num_total tick))
        (callbacks (evs1 @ evs2))"
      using q1 q2 by (simp add: callbacks_append)
    ultimately have "\<exists>evs. trace w' = trace w @ evs
           \<and> list_all (\<lambda>p. total_items p = Some (ticker_num_total tick)) (callbacks evs)"
      by blast
    with res p2 c2 g2 t2 show ?thesis by simp
  qed
qed


lemma consume_loop_returns:
  "(\<forall>f p v. ticker_callback tick = Some f \<longrightarrow> fst (f p v) = Inr ()) \<Longrightarrow>
   fst (snd (consume (Suspended tick rest) w)) = Inr ()"
proof (induction rest arbitrary: tick w)
  case Nil
  show ?case by (simp add: consume_Nil)
next
  case (Cons item rest)
  obtain r1 tick1 w1 where call: "ProgressTicker_call tick 1 w = (r1, tick1, w1)"
    by (cases "ProgressTicker_call tick 1 w") auto
  have r1: "r1 = Inr ()"
  proof (cases "ticker_callback tick")
    case None
    with call show ?thesis by (simp add: call_without_callback)
  next
    case (Some f)
    with call Cons.prems show ?thesis by (simp add: call_with_callback)
  qed
  from call_fields(2) [of tick 1 w] call
  have "ticker_callback tick1 = ticker_callback tick" by simp
  with Cons.prems
  have "\<forall>f p v. ticker_callback tick1 = Some f \<longrightarrow> fst (f p v) = Inr ()" by simp
  from Cons.IH [OF this, of w1] call r1 show ?case
    by (simp add: consume_Cons split_def)
qed

lemma consume_loop_count:
  "consume (Suspended tick rest) w = (ys, r, g', w') \<Longrightarrow>
   \<exists>tick'. g' = Finished tick'
     \<and> ticker_num_complete tick' =
         ticker_num_complete tick + int (length ys) + (case r of Inl e \<Rightarrow> 1 | Inr u \<Rightarrow> 0)"
proof (induction rest arbitrary: tick w ys r g' w')
  case Nil
  then show ?case by (auto simp: consume_Nil)
next
  case (Cons item rest)
  obtain r1 tick1 w1 where call: "ProgressTicker_call tick 1 w = (r1, tick1, w1)"
    by (cases "ProgressTicker_call tick 1 w") auto
  from call_fields(4) [of tick 1 w] call
  have cnt: "ticker_num_complete tick1 = ticker_num_complete tick + 1" by simp
  show ?case
  proof (cases r1)
    case (Inl e)
    with Cons.prems call cnt show ?thesis
      by (auto simp: consume_Cons)
  next
    case (Inr u)
    obtain ys2 r2 g2 w2 where rec: "consume (Suspended tick1 rest) w1 = (ys2, r2, g2, w2)"
      by (cases "consume (Suspended tick1 rest) w1") auto
    from Cons.prems call Inr rec
    have res: "ys = item # ys2" "r = r2" "g' = g2" "w' = w2"
      by (simp_all add: consume_Cons)
    from Cons.IH [OF rec] cnt res show ?thesis by auto
  qed
qed

lemma next_keeps_total:
  "generator_ticker g = Some tick \<Longrightarrow>
   \<exists>tick'. generator_ticker (fst (snd (generator_next g w))) = Some tick'
     \<and> ticker_num_total tick' = ticker_num_total tick"
proof (cases g)
  case (Created it cb nt d)
  then show "generator_ticker g = Some tick \<Longrightarrow> ?thesis" by simp
next
  case (Suspended t rest)
  assume "generator_ticker g = Some tick"
  with Suspended have t: "t = tick" by simp
  show ?thesis
  proof (cases rest)
    case Nil
    with Suspended t show ?thesis by simp
  next
    case (Cons item rest')
    obtain r1 tick1 w1 where call: "ProgressTicker_call tick 1 w = (r1, tick1, w1)"
      by (cases "ProgressTicker_call tick 1 w") auto
    from call_fields(1) [of tick 1 w] call
    have "ticker_num_total tick1 = ticker_num_total tick" by simp
    with Suspended t Cons call show ?thesis
      by (cases r1) simp_all
  qed
next
  case (Finished t)
  then show "generator_ticker g = Some tick \<Longrightarrow> ?thesis" by simp
qed

lemma pulls_keep_total:
  "generator_ticker g = Some tick \<Longrightarrow>
   \<exists>tick'. generator_ticker (fst (pulls k g w)) = Some tick'
     \<and> ticker_num_total tick' = ticker_num_total tick"
proof (induction k arbitrary: g tick w)
  case 0
  then show ?case by simp
next
  case (Suc k)
  obtain r1 g1 w1 where step: "generator_next g w = (r1, g1, w1)"
    by (cases "generator_next g w") auto
  from next_keeps_total [OF Suc.prems, of w] step obtain tick1 where
    t1: "generator_ticker g1 = Some tick1"
    and tot: "ticker_num_total tick1 = ticker_num_total tick"
    by auto
  from Suc.IH [OF t1, of w1] tot step show ?case by simp
qed

text \<open>
  Claim C5, as stated, promises all the elements of the input for every input and
  every explicit total. The loop calls the ticker before each \<open>yield\<close> and catches
  nothing, so a callback that raises ends the generator: with the explicit total 3, the
  input \<open>10, 20, 30\<close> and a callback that raises on its first call, the consumer receives
  no item at all, the exception comes out of the first \<open>next\<close>, and the callback has
  been called once.
\<close>

theorem raising_callback_cuts_iteration_short:
  "consume (progress_iterable (Iterator [10, 20, 30 :: int]) (Some raising_handler) (Some 3) [])
       (fresh_world 0)
     = ([], Inl ''handler failed'',
        Finished \<lparr>ticker_callback = Some raising_handler, ticker_description = [],
                   ticker_num_total = 3, ticker_num_complete = 1\<rparr>,
        \<lparr>trace = [Callback \<lparr>percent = None, description = Some [], total_items = Some 3,
                              completed_items = Some 1\<rparr>],
          env = 1\<rparr>)
   \<and> fst (consume (progress_iterable (Iterator [10, 20, 30 :: int]) (Some raising_handler)
            (Some 3) []) (fresh_world 0))
     \<noteq> iter_py (Iterator [10, 20, 30 :: int])"
  by (simp add: progress_iterable_def consume_Created consume_Cons consume_Nil
      call_with_callback ProgressTicker_init_def raising_handler_def fresh_world_def)

text \<open>
  Claim C5, amended. The wrapper is given an explicit total \<open>n\<close>, whatever the input (a
  sequence or a single-pass iterator) and however many items it holds. A consumer
  iterating the generator to its end receives the items of the input in order: all of
  them whenever the iteration ends without an exception, and in particular whenever
  there is no callback or the callback never raises; a prefix of them when the callback
  raises. The reporter's total is \<open>n\<close> throughout: in the generator after every \<open>next\<close>,
  when the iteration has ended, and in every snapshot handed to the callback.
\<close>

theorem explicit_total_is_kept:
  "consume (progress_iterable it cb (Some n) d) w = (ys, r, g', w') \<Longrightarrow>
     prefix ys (iter_py it)
     \<and> (r = Inr () \<longrightarrow> ys = iter_py it)
     \<and> ((\<forall>f p v. cb = Some f \<longrightarrow> fst (f p v) = Inr ()) \<longrightarrow> ys = iter_py it)
     \<and> (\<exists>tick'. g' = Finished tick' \<and> ticker_num_total tick' = n)
     \<and> (\<exists>evs. trace w' = trace w @ evs
           \<and> list_all (\<lambda>p. total_items p = Some n) (callbacks evs))
     \<and> (\<forall>k. \<exists>tick'.
           generator_ticker (fst (pulls (Suc k) (progress_iterable it cb (Some n) d) w))
             = Some tick'
           \<and> ticker_num_total tick' = n)"
proof -
  let ?tick = "ProgressTicker_init cb n d"
  assume run: "consume (progress_iterable it cb (Some n) d) w = (ys, r, g', w')"
  then have loop: "consume (Suspended ?tick (iter_py it)) w = (ys, r, g', w')"
    by (simp add: progress_iterable_def consume_Created)
  have tot: "ticker_num_total ?tick = n" and cbk: "ticker_callback ?tick = cb"
    by (simp_all add: ProgressTicker_init_def)
  from consume_loop [OF loop] tot
  have a: "prefix ys (iter_py it)" and b: "r = Inr () \<longrightarrow> ys = iter_py it"
    and c: "\<exists>tick'. g' = Finished tick' \<and> ticker_num_total tick' = n"
    and e: "\<exists>evs. trace w' = trace w @ evs
           \<and> list_all (\<lambda>p. total_items p = Some n) (callbacks evs)"
    by simp_all
  have f: "(\<forall>f p v. cb = Some f \<longrightarrow> fst (f p v) = Inr ()) \<longrightarrow> ys = iter_py it"
  proof
    assume "\<forall>f p v. cb = Some f \<longrightarrow> fst (f p v) = Inr ()"
    with cbk have "\<forall>f p v. ticker_callback ?tick = Some f \<longrightarrow> fst (f p v) = Inr ()"
      by simp
    from consume_loop_returns [OF this, of "iter_py it" w] loop have "r = Inr ()"
      by simp
    with b show "ys = iter_py it" by simp
  qed
  have g: "\<forall>k. \<exists>tick'.
           generator_ticker (fst (pulls (Suc k) (progress_iterable it cb (Some n) d) w))
             = Some tick'
           \<and> ticker_num_total tick' = n"
  proof
    fix k
    have "generator_ticker (Suspended ?tick (iter_py it)) = Some ?tick" by simp
    from pulls_keep_total [OF this, of "Suc k" w] tot
    show "\<exists>tick'.
           generator_ticker (fst (pulls (Suc k) (progress_iterable it cb (Some n) d) w))
             = Some tick'
           \<and> ticker_num_total tick' = n"
      by (simp only: progress_iterable_def pulls_Created option.case)
  qed
  from a b f c e g show ?thesis by blast
qed

theorem explicit_total_is_kept_witness:
  "consume (progress_iterable (Iterator [10, 20, 30 :: int]) (Some recording_handler) (Some 5) [])
       (fresh_world [])
     = ([10, 20, 30], Inr (),
        Finished \<lparr>ticker_callback = Some recording_handler, ticker_description = [],
                   ticker_num_total = 5, ticker_num_complete = 3\<rparr>,
        \<lparr>trace = [Callback \<lparr>percent = None, description = Some [], total_items = Some 5,
                              completed_items = Some 1\<rparr>,
                   Callback \<lparr>percent = None, description = Some [], total_items = Some 5,
                              completed_items = Some 2\<rparr>,
                   Callback \<lparr>percent = None, description = Some [], total_items = Some 5,
                              completed_items = Some 3\<rparr>],
          env = [\<lparr>percent = None, description = Some [], total_items = Some 5,
                    completed_items = Some 1\<rparr>,
                 \<lparr>percent = None, description = Some [], total_items = Some 5,
                    completed_items = Some 2\<rparr>,
                 \<lparr>percent = None, description = Some [], total_items = Some 5,
                    completed_items = Some 3\<rparr>]\<rparr>)
   \<and> (\<forall>p v. fst (recording_handler p v) = Inr ())
   \<and> [10, 20, 30] = iter_py (Iterator [10, 20, 30 :: int])"
proof -
  have run: "consume (progress_iterable (Iterator [10, 20, 30 :: int]) (Some recording_handler)
         (Some 5) []) (fresh_world [])
     = ([10, 20, 30], Inr (),
        Finished \<lparr>ticker_callback = Some recording_handler, ticker_description = [],
                   ticker_num_total = 5, ticker_num_complete = 3\<rparr>,
        \<lparr>trace = [Callback \<lparr>percent = None, description = Some [], total_items = Some 5,
                              completed_items = Some 1\<rparr>,
                   Callback \<lparr>percent = None, description = Some [], total_items = Some 5,
                              completed_items = Some 2\<rparr>,
                   Callback \<lparr>percent = None, description = Some [], total_items = Some 5,
                              completed_items = Some 3\<rparr>],
          env = [\<lparr>percent = None, description = Some [], total_items = Some 5,
                    completed_items = Some 1\<rparr>,
                 \<lparr>percent = None, description = Some [], total_items = Some 5,
                    completed_items = Some 2\<rparr>,
                 \<lparr>percent = None, description = Some [], total_items = Some 5,
                    completed_items = Some 3\<rparr>]\<rparr>)"
    by (simp add: progress_iterable_def consume_Created consume_Cons consume_Nil
        call_with_callback ProgressTicker_init_def recording_handler_def fresh_world_def)
  have quiet: "\<forall>p v. fst (recording_handler p v) = Inr ()"
    by (simp add: recording_handler_def)
  have all: "[10, 20, 30] = iter_py (Iterator [10, 20, 30 :: int])"
    by (rule explicit_total_is_kept [OF run, THEN conjunct2, THEN conjunct1, THEN mp, OF refl])
  have never_raises:
    "\<forall>f p v. Some recording_handler = Some f \<longrightarrow> fst (f p v) = (Inr () :: string + unit)"
    using quiet by simp
  have all_again: "[10, 20, 30] = iter_py (Iterator [10, 20, 30 :: int])"
    by (rule explicit_total_is_kept
          [OF run, THEN conjunct2, THEN conjunct2, THEN conjunct1, THEN mp, OF never_raises])
  from all all_again show ?thesis
    by (intro conjI run quiet)
qed

text \<open>
  Claim C10. With the total omitted and a single-pass iterator as input, \<open>list()\<close>
  takes every item out of the iterator to count them, and the loop then iterates that
  same, now empty, iterator rather than the list: the first \<open>next\<close> ends the generator.
  It yields no item and calls the callback not once (the world is as it was), while
  the reporter's total is the number of items the input had.
\<close>

theorem single_pass_input_is_exhausted_by_count:
  "list_py (Iterator xs) = (xs, Iterator [])
   \<and> generator_next (progress_iterable (Iterator xs) cb None d) w
       = (Inr None, Finished (ProgressTicker_init cb (int (length xs)) d), w)
   \<and> consume (progress_iterable (Iterator xs) cb None d) w
       = ([], Inr (), Finished (ProgressTicker_init cb (int (length xs)) d), w)"
  by (simp add: progress_iterable_def consume_Created consume_Nil)

subsection \<open>Omitted total\<close>

text \<open>
  For an input that can be iterated again (a list), the omitted total is harmless: with
  a callback that does not raise, the consumer receives every item, the reporter's
  total is their number, and the count has gone up by one for each of them.
\<close>

lemma sequence_without_total:
  assumes "\<forall>f p v. cb = Some f \<longrightarrow> fst (f p v) = Inr ()"
  shows "\<exists>tick' w'. consume (progress_iterable (Sequence xs) cb None d) w
            = (xs, Inr (), Finished tick', w')
          \<and> ticker_num_total tick' = int (length xs)
          \<and> ticker_num_complete tick' = int (length xs)"
proof -
  let ?tick = "ProgressTicker_init cb (int (length xs)) d"
  obtain ys r g' w' where loop: "consume (Suspended ?tick xs) w = (ys, r, g', w')"
    by (cases "consume (Suspended ?tick xs) w") auto
  have "\<forall>f p v. ticker_callback ?tick = Some f \<longrightarrow> fst (f p v) = Inr ()"
    using assms by (simp add: ProgressTicker_init_def)
  from consume_loop_returns [OF this, of xs w] loop have r: "r = Inr ()" by simp
  from consume_loop [OF loop] r obtain tick' where
    ys: "ys = xs" and g: "g' = Finished tick'"
    and tot: "ticker_num_total tick' = int (length xs)"
    by (auto simp: ProgressTicker_init_def)
  from consume_loop_count [OF loop] g r ys
  have "ticker_num_complete tick' = int (length xs)"
    by (simp add: ProgressTicker_init_def)
  with loop ys r g tot show ?thesis
    by (simp add: progress_iterable_def consume_Created)
qed

text \<open>
  Claim C1 holds for inputs that can be iterated again (\<open>sequence_without_total\<close>) and
  fails for the single-pass inputs it names. For the iterator over \<open>10, 20, 30\<close> and no
  explicit total the consumer receives nothing and the callback is never called, with
  a reporter whose total is 3; the same iterator with the explicit total 3 delivers
  all three items.
\<close>

theorem omitted_total_loses_single_pass_input:
  "consume (progress_iterable (Iterator [10, 20, 30 :: int]) (Some recording_handler) None [])
       (fresh_world [])
     = ([], Inr (), Finished (ProgressTicker_init (Some recording_handler) 3 []), fresh_world [])
   \<and> fst (consume (progress_iterable (Iterator [10, 20, 30 :: int]) (Some recording_handler)
            (Some 3) []) (fresh_world []))
     = [10, 20, 30]"
  by (simp add: progress_iterable_def consume_Created consume_Cons consume_Nil
      call_with_callback ProgressTicker_init_def recording_handler_def fresh_world_def)

end
